theory Spec2Isabelle
  imports Main
begin

section \<open>Python objects, the heap and exceptions\<close>

text \<open>
  The notebook \<^verbatim>\<open>demo.ipynb\<close> shows three Python pitfalls. All three depend on which
  object a name refers to, so the model keeps an explicit heap: closure cells and list
  objects live at addresses, and a value that refers to a list is a reference.

  A closure made by \<^verbatim>\<open>def multiplier(x): return i * x\<close> is represented by the address of
  the cell that holds the free variable \<^verbatim>\<open>i\<close> (its code is fixed); the cell is read when
  the closure is called. Function objects are values here, not objects on the heap:
  no property below depends on the identity of a function object.
\<close>

type_synonym addr = nat

datatype pyval =
    NoneV
  | BoolV bool
  | IntV int
  | StrV string
  | Ref addr
  | Multiplier addr

datatype obj =
    Cell "int option"
  | ListObj "pyval list"

datatype exn =
    NameError
  | AttributeError
  | TypeError
  | Raised string

datatype printed =
    PList "pyval list"
  | PVal pyval

record 'w pystate =
  heap :: "addr \<Rightarrow> obj option"
  next_addr :: addr
  stdout :: "printed list"
  world :: 'w

definition init_state :: "'w \<Rightarrow> 'w pystate" where
  "init_state w = \<lparr>heap = (\<lambda>a. None), next_addr = 0, stdout = [], world = w\<rparr>"

definition alloc :: "obj \<Rightarrow> 'w pystate \<Rightarrow> addr \<times> 'w pystate" where
  "alloc ob st =
     (next_addr st,
      st\<lparr>heap := (heap st)(next_addr st \<mapsto> ob), next_addr := Suc (next_addr st)\<rparr>)"

definition set_cell :: "addr \<Rightarrow> int \<Rightarrow> 'w pystate \<Rightarrow> 'w pystate" where
  "set_cell c k st = st\<lparr>heap := (heap st)(c \<mapsto> Cell (Some k))\<rparr>"

definition list_of :: "'w pystate \<Rightarrow> pyval \<Rightarrow> pyval list option" where
  "list_of st v =
     (case v of
        Ref r \<Rightarrow> (case heap st r of Some (ListObj xs) \<Rightarrow> Some xs | _ \<Rightarrow> None)
      | _ \<Rightarrow> None)"

text \<open>\<^verbatim>\<open>target.append(v)\<close>: only a list object has the method.\<close>

definition list_append ::
  "pyval \<Rightarrow> pyval \<Rightarrow> 'w pystate \<Rightarrow> (exn + unit) \<times> 'w pystate" where
  "list_append target v st =
     (case target of
        Ref r \<Rightarrow>
          (case heap st r of
             Some (ListObj xs) \<Rightarrow> (Inr (), st\<lparr>heap := (heap st)(r \<mapsto> ListObj (xs @ [v]))\<rparr>)
           | _ \<Rightarrow> (Inl AttributeError, st))
      | _ \<Rightarrow> (Inl AttributeError, st))"

definition py_range :: "nat \<Rightarrow> int list" where
  "py_range n = map int [0..<n]"

section \<open>Late binding closures: \<^verbatim>\<open>times_table\<close>\<close>

text \<open>
  \<^verbatim>\<open>
  def times_table():
      table = []
      for i in range(10):
          def multiplier(x):
              return i * x
          table.append(multiplier)
      return table
  \<close>
  The variable \<^verbatim>\<open>i\<close> is captured by the inner function, so it lives in one cell of the
  frame of \<^verbatim>\<open>times_table\<close>; the loop stores each value of the range into that cell.
  The argument \<^verbatim>\<open>x\<close> is any value and \<^verbatim>\<open>*\<close> is the interpreter's multiplication of
  an integer with it, the parameter \<open>mul\<close>.
\<close>

fun times_table_loop ::
  "addr \<Rightarrow> pyval \<Rightarrow> int list \<Rightarrow> 'w pystate \<Rightarrow> (exn + unit) \<times> 'w pystate" where
  "times_table_loop c table [] st = (Inr (), st)"
| "times_table_loop c table (k # ks) st =
     (case list_append table (Multiplier c) (set_cell c k st) of
        (Inl e, st') \<Rightarrow> (Inl e, st')
      | (Inr u, st') \<Rightarrow> times_table_loop c table ks st')"

definition times_table :: "'w pystate \<Rightarrow> (exn + pyval) \<times> 'w pystate" where
  "times_table st =
     (let (c, st1) = alloc (Cell None) st;
          (t, st2) = alloc (ListObj []) st1
      in case times_table_loop c (Ref t) (py_range 10) st2 of
           (Inl e, st3) \<Rightarrow> (Inl e, st3)
         | (Inr u, st3) \<Rightarrow> (Inr (Ref t), st3))"

text \<open>Calling a value: \<^verbatim>\<open>multiplier(x)\<close> reads the cell now.\<close>

definition py_call :: "(int \<Rightarrow> 'a \<Rightarrow> 'b) \<Rightarrow> pyval \<Rightarrow> 'a \<Rightarrow> 'w pystate \<Rightarrow> exn + 'b" where
  "py_call mul f x st =
     (case f of
        Multiplier c \<Rightarrow>
          (case heap st c of
             Some (Cell (Some i)) \<Rightarrow> Inr (mul i x)
           | _ \<Rightarrow> Inl NameError)
      | _ \<Rightarrow> Inl TypeError)"

text \<open>
  The notebook cell \<^verbatim>\<open>[f(5) for f in times_table()]\<close>, for any argument \<open>x\<close>: the
  closures of the returned list are called in order; an exception ends the evaluation.
\<close>

fun call_each :: "(int \<Rightarrow> 'a \<Rightarrow> 'b) \<Rightarrow> pyval list \<Rightarrow> 'a \<Rightarrow> 'w pystate \<Rightarrow> exn + 'b list" where
  "call_each mul [] x st = Inr []"
| "call_each mul (f # fs) x st =
     (case py_call mul f x st of
        Inl e \<Rightarrow> Inl e
      | Inr y \<Rightarrow> (case call_each mul fs x st of Inl e \<Rightarrow> Inl e | Inr ys \<Rightarrow> Inr (y # ys)))"

definition times_table_cell ::
  "(int \<Rightarrow> 'a \<Rightarrow> 'b) \<Rightarrow> 'a \<Rightarrow> 'w pystate \<Rightarrow> (exn + 'b list) \<times> 'w pystate" where
  "times_table_cell mul x st =
     (case times_table st of
        (Inl e, st') \<Rightarrow> (Inl e, st')
      | (Inr tbl, st') \<Rightarrow>
          (case list_of st' tbl of
             None \<Rightarrow> (Inl TypeError, st')
           | Some fs \<Rightarrow> (call_each mul fs x st', st')))"

section \<open>Mutable default argument: \<^verbatim>\<open>add_item\<close>\<close>

text \<open>
  \<^verbatim>\<open>
  def add_item(item, items=[]):
      items.append(item)
      return items
  \<close>
  Executing the \<^verbatim>\<open>def\<close> statement evaluates the default expression \<^verbatim>\<open>[]\<close> once and
  stores the new list object in the function object. \<open>def_add_item\<close> returns the address
  of that object; the function object is represented by it, the parameter \<open>dflt\<close> of
  \<open>add_item\<close>. The argument \<^verbatim>\<open>items\<close> is \<open>None\<close> when the call omits it.
\<close>

definition def_add_item :: "'w pystate \<Rightarrow> addr \<times> 'w pystate" where
  "def_add_item st = alloc (ListObj []) st"

definition add_item ::
  "addr \<Rightarrow> pyval \<Rightarrow> pyval option \<Rightarrow> 'w pystate \<Rightarrow> (exn + pyval) \<times> 'w pystate" where
  "add_item dflt item arg st =
     (let items = (case arg of None \<Rightarrow> Ref dflt | Some v \<Rightarrow> v)
      in case list_append items item st of
           (Inl e, st') \<Rightarrow> (Inl e, st')
         | (Inr u, st') \<Rightarrow> (Inr items, st'))"

text \<open>
  A sequence of calls \<^verbatim>\<open>add_item(x1)\<close>, ..., \<^verbatim>\<open>add_item(xn)\<close> that omit \<^verbatim>\<open>items\<close>. For
  each call the result is the returned value together with the contents of the returned
  list when the call returns; an exception ends the sequence.
\<close>

fun add_item_seq ::
  "addr \<Rightarrow> pyval list \<Rightarrow> 'w pystate \<Rightarrow> (exn + pyval \<times> pyval list option) list \<times> 'w pystate" where
  "add_item_seq dflt [] st = ([], st)"
| "add_item_seq dflt (x # xs) st =
     (case add_item dflt x None st of
        (Inl e, st') \<Rightarrow> ([Inl e], st')
      | (Inr v, st') \<Rightarrow>
          (case add_item_seq dflt xs st' of
             (rs, st'') \<Rightarrow> (Inr (v, list_of st' v) # rs, st'')))"

text \<open>\<^verbatim>\<open>print(v)\<close> writes the value; a list is written with its contents at that time.\<close>

definition py_print :: "pyval \<Rightarrow> 'w pystate \<Rightarrow> 'w pystate" where
  "py_print v st =
     st\<lparr>stdout := stdout st @ [case list_of st v of Some xs \<Rightarrow> PList xs | None \<Rightarrow> PVal v]\<rparr>"

text \<open>
  The notebook cell after the definition:
  \<^verbatim>\<open>
  v = add_item(1)
  print(add_item(2))
  print(add_item(3))
  print(add_item(4))
  print(v)
  a = add_item(5)
  \<close>
  It returns the values bound to \<^verbatim>\<open>v\<close> and \<^verbatim>\<open>a\<close>.
\<close>

definition print_add_item ::
  "addr \<Rightarrow> pyval \<Rightarrow> 'w pystate \<Rightarrow> (exn + unit) \<times> 'w pystate" where
  "print_add_item dflt x st =
     (case add_item dflt x None st of
        (Inl e, st') \<Rightarrow> (Inl e, st')
      | (Inr r, st') \<Rightarrow> (Inr (), py_print r st'))"

definition add_item_cell :: "addr \<Rightarrow> 'w pystate \<Rightarrow> (exn + pyval \<times> pyval) \<times> 'w pystate" where
  "add_item_cell dflt st =
     (case add_item dflt (IntV 1) None st of
        (Inl e, st1) \<Rightarrow> (Inl e, st1)
      | (Inr v, st1) \<Rightarrow>
     (case print_add_item dflt (IntV 2) st1 of
        (Inl e, st2) \<Rightarrow> (Inl e, st2)
      | (Inr u2, st2) \<Rightarrow>
     (case print_add_item dflt (IntV 3) st2 of
        (Inl e, st3) \<Rightarrow> (Inl e, st3)
      | (Inr u3, st3) \<Rightarrow>
     (case print_add_item dflt (IntV 4) st3 of
        (Inl e, st4) \<Rightarrow> (Inl e, st4)
      | (Inr u4, st4) \<Rightarrow>
     (case add_item dflt (IntV 5) None (py_print v st4) of
        (Inl e, st5) \<Rightarrow> (Inl e, st5)
      | (Inr a, st5) \<Rightarrow> (Inr (v, a), st5))))))"

text \<open>
  The list display \<^verbatim>\<open>[v1, ..., vn]\<close> in a caller creates a new list object, which the
  caller may pass to \<^verbatim>\<open>add_item\<close>.
\<close>

definition new_list :: "pyval list \<Rightarrow> 'w pystate \<Rightarrow> addr \<times> 'w pystate" where
  "new_list vs st = alloc (ListObj vs) st"

section \<open>Identity and equality of integers: \<^verbatim>\<open>something\<close>\<close>

text \<open>
  \<^verbatim>\<open>
  def something():
      a = 10
      print(a == 10)
      print(a is 10)
      c = 123456
      print(c == 123456)
      print(c is 123456)
  \<close>
  \<^verbatim>\<open>==\<close> compares the integers. \<^verbatim>\<open>is\<close> compares the identity of two objects; whether
  the object bound to a variable by an integer literal is the object a later occurrence
  of the same literal yields is decided by the interpreter's allocation of integer
  objects, not by the program. It is the parameter \<open>same_object\<close>: \<open>same_object n\<close>
  says whether two occurrences of the literal \<open>n\<close> in the function give one object.
  The function has no free variable but \<^verbatim>\<open>print\<close> and reads nothing of the heap.
\<close>

definition something :: "(int \<Rightarrow> bool) \<Rightarrow> 'w pystate \<Rightarrow> 'w pystate" where
  "something same_object st =
     (let a = (10::int);
          st1 = py_print (BoolV (a = 10)) st;
          st2 = py_print (BoolV (same_object a)) st1;
          c = (123456::int);
          st3 = py_print (BoolV (c = 123456)) st2;
          st4 = py_print (BoolV (same_object c)) st3
      in st4)"

text \<open>
  Two interpreters for concrete runs. The notebook's metadata names its kernel:
  CPython 3.11. CPython compiles a function body to one code object and keeps one
  object for each distinct constant of it, so two occurrences of the same integer
  literal in the body of \<^verbatim>\<open>something\<close> are one object, whatever the size of the
  integer: \<open>cpython_same_object\<close>. The small-integer cache alone, which preallocates the
  integers from -5 to 256, decides the identity of two equal integers only when they do
  not come from the constants of one code object: \<open>cache_only_same_object\<close>.
\<close>

definition cpython_same_object :: "int \<Rightarrow> bool" where
  "cpython_same_object n = True"

definition cache_only_same_object :: "int \<Rightarrow> bool" where
  "cache_only_same_object n = (- 5 \<le> n \<and> n \<le> 256)"

section \<open>Interleaved calls of the three demonstrations\<close>

text \<open>
  A session after the definitions have been executed is a sequence of calls: of
  \<^verbatim>\<open>times_table\<close>, of a value \<open>f\<close> with an argument (a closure from a table), of
  \<^verbatim>\<open>add_item\<close> with or without the argument \<^verbatim>\<open>items\<close>, of \<^verbatim>\<open>something\<close>, and the
  creation of a list by the caller. \<open>dflt\<close> is the default container of \<^verbatim>\<open>add_item\<close>.
\<close>

datatype 'a call =
    TimesTable
  | Call pyval 'a
  | AddItem pyval "pyval option"
  | Something
  | NewList "pyval list"

datatype 'b outcome =
    Value pyval
  | Product 'b
  | Exception exn
  | Done

fun is_add_item :: "'a call \<Rightarrow> bool" where
  "is_add_item (AddItem x arg) = True"
| "is_add_item c = False"

fun is_other_demo :: "'a call \<Rightarrow> bool" where
  "is_other_demo TimesTable = True"
| "is_other_demo (Call f x) = True"
| "is_other_demo Something = True"
| "is_other_demo c = False"

fun exec ::
  "(int \<Rightarrow> bool) \<Rightarrow> (int \<Rightarrow> 'a \<Rightarrow> 'b) \<Rightarrow> addr \<Rightarrow> 'a call \<Rightarrow> 'w pystate \<Rightarrow>
   'b outcome \<times> 'w pystate" where
  "exec same_object mul dflt TimesTable st =
     (case times_table st of
        (Inl e, st') \<Rightarrow> (Exception e, st')
      | (Inr v, st') \<Rightarrow> (Value v, st'))"
| "exec same_object mul dflt (Call f x) st =
     (case py_call mul f x st of
        Inl e \<Rightarrow> (Exception e, st)
      | Inr y \<Rightarrow> (Product y, st))"
| "exec same_object mul dflt (AddItem x arg) st =
     (case add_item dflt x arg st of
        (Inl e, st') \<Rightarrow> (Exception e, st')
      | (Inr v, st') \<Rightarrow> (Value v, st'))"
| "exec same_object mul dflt Something st = (Done, something same_object st)"
| "exec same_object mul dflt (NewList vs) st =
     (case new_list vs st of (r, st') \<Rightarrow> (Value (Ref r), st'))"

fun run ::
  "(int \<Rightarrow> bool) \<Rightarrow> (int \<Rightarrow> 'a \<Rightarrow> 'b) \<Rightarrow> addr \<Rightarrow> 'a call list \<Rightarrow> 'w pystate \<Rightarrow>
   'b outcome list \<times> 'w pystate" where
  "run same_object mul dflt [] st = ([], st)"
| "run same_object mul dflt (c # cs) st =
     (case exec same_object mul dflt c st of
        (out, st') \<Rightarrow>
          (case run same_object mul dflt cs st' of
             (outs, st'') \<Rightarrow> (out # outs, st'')))"

text \<open>The outcomes of the calls of a session that satisfy \<open>P\<close>, in order.\<close>

definition outcomes_of :: "('a call \<Rightarrow> bool) \<Rightarrow> 'a call list \<Rightarrow> 'b outcome list \<Rightarrow> 'b outcome list" where
  "outcomes_of P cs outs = map snd (filter (\<lambda>(c, out). P c) (zip cs outs))"

text \<open>
  Two states of a fresh session, used as concrete inputs: after the definition of
  \<^verbatim>\<open>add_item\<close> (its default container is at address 0), and after \<^verbatim>\<open>v = add_item(1)\<close>.
\<close>

definition after_def :: "unit pystate" where
  "after_def = snd (def_add_item (init_state ()))"

definition after_first_call :: "unit pystate" where
  "after_first_call = snd (add_item 0 (IntV 1) None after_def)"

text \<open>
  What a session that never looks into a list can tell of a state: the state with the
  contents of every list object erased. Closure cells, the allocator, the printed
  lines and the outside world are kept.
\<close>

definition erase :: "obj option \<Rightarrow> obj option" where
  "erase ob = (case ob of Some (ListObj xs) \<Rightarrow> Some (ListObj []) | other \<Rightarrow> other)"

definition sans_lists :: "'w pystate \<Rightarrow> 'w pystate" where
  "sans_lists st = st\<lparr>heap := (\<lambda>a. erase (heap st a))\<rparr>"

text \<open>A session that interleaves the three demonstrations, used as a concrete input.\<close>

definition session :: "int call list" where
  "session =
     [TimesTable, AddItem (IntV 1) None, Call (Multiplier 1) 5,
      AddItem (IntV 2) (Some (Ref 2)), Something, AddItem (IntV 3) None]"

section \<open>The image pipeline: \<^verbatim>\<open>create_pipeline\<close> and \<^verbatim>\<open>transform_image\<close>\<close>

text \<open>
  A computation that may raise and may change the state returns the exception or the
  value, and the state it leaves. \<open>then_do\<close> is sequencing: an exception of the first
  step ends the computation.
\<close>

definition then_do ::
  "('s \<Rightarrow> (exn + 'a) \<times> 's) \<Rightarrow> ('a \<Rightarrow> 's \<Rightarrow> (exn + 'b) \<times> 's) \<Rightarrow> 's \<Rightarrow> (exn + 'b) \<times> 's" where
  "then_do m f s = (case m s of (Inl e, s') \<Rightarrow> (Inl e, s') | (Inr a, s') \<Rightarrow> f a s')"

text \<open>
  \<^verbatim>\<open>
  def create_pipeline(*operations):
      def pipeline(data):
          for operation in operations:
              data = operation(data)
          return data
      return pipeline
  \<close>
  An operation is any callable: it may raise and may have effects. The tuple
  \<^verbatim>\<open>operations\<close> is immutable, so the closure \<^verbatim>\<open>pipeline\<close> is determined by its
  elements.
\<close>

fun pipeline ::
  "('a \<Rightarrow> 's \<Rightarrow> (exn + 'a) \<times> 's) list \<Rightarrow> 'a \<Rightarrow> 's \<Rightarrow> (exn + 'a) \<times> 's" where
  "pipeline [] data st = (Inr data, st)"
| "pipeline (operation # operations) data st =
     (case operation data st of
        (Inl e, st') \<Rightarrow> (Inl e, st')
      | (Inr data', st') \<Rightarrow> pipeline operations data' st')"

definition create_pipeline ::
  "('a \<Rightarrow> 's \<Rightarrow> (exn + 'a) \<times> 's) list \<Rightarrow> 'a \<Rightarrow> 's \<Rightarrow> (exn + 'a) \<times> 's" where
  "create_pipeline operations = pipeline operations"

text \<open>
  The composition the specification names, \<open>fn(...(f2(f1(x)))...)\<close>: the outermost
  function is the last operation, applied to the result of the inner ones. It is
  written by recursion on the operations from the last to the first, and for
  operations that are pure functions it is \<open>nested_pure\<close>.
\<close>

fun nested_from_last ::
  "('a \<Rightarrow> 's \<Rightarrow> (exn + 'a) \<times> 's) list \<Rightarrow> 'a \<Rightarrow> 's \<Rightarrow> (exn + 'a) \<times> 's" where
  "nested_from_last [] x st = (Inr x, st)"
| "nested_from_last (f # inner) x st =
     (case nested_from_last inner x st of
        (Inl e, st') \<Rightarrow> (Inl e, st')
      | (Inr y, st') \<Rightarrow> f y st')"

definition left_to_right_composition ::
  "('a \<Rightarrow> 's \<Rightarrow> (exn + 'a) \<times> 's) list \<Rightarrow> 'a \<Rightarrow> 's \<Rightarrow> (exn + 'a) \<times> 's" where
  "left_to_right_composition fs = nested_from_last (rev fs)"

definition pure_operation :: "('a \<Rightarrow> 'a) \<Rightarrow> 'a \<Rightarrow> 's \<Rightarrow> (exn + 'a) \<times> 's" where
  "pure_operation g x st = (Inr (g x), st)"

definition nested_pure :: "('a \<Rightarrow> 'a) list \<Rightarrow> 'a \<Rightarrow> 'a" where
  "nested_pure gs x = foldr (\<lambda>g y. g y) (rev gs) x"

text \<open>
  The libraries (PIL, numpy, scipy, IPython) are not part of the repository. Each
  function of theirs that the notebook calls is a parameter: a computation on the world
  outside the interpreter (files, the random generator, the display) that may raise.
  \<open>'img\<close> is a PIL image and \<open>'arr\<close> a numpy array. A number passed to a library is
  an integer or a float literal, kept as written.
\<close>

datatype pynum = PyInt int | PyFloat string

record ('w, 'img, 'arr) library =
  Image_open :: "string \<Rightarrow> 'w \<Rightarrow> (exn + 'img) \<times> 'w"
  Image_convert :: "'img \<Rightarrow> string \<Rightarrow> 'w \<Rightarrow> (exn + 'img) \<times> 'w"
  np_array :: "'img \<Rightarrow> 'w \<Rightarrow> (exn + 'arr) \<times> 'w"
  np_divide :: "'arr \<Rightarrow> int \<Rightarrow> 'w \<Rightarrow> (exn + 'arr) \<times> 'w"
  np_shape :: "'arr \<Rightarrow> 'w \<Rightarrow> (exn + nat list) \<times> 'w"
  np_random_normal :: "pynum \<Rightarrow> pynum \<Rightarrow> nat list \<Rightarrow> 'w \<Rightarrow> (exn + 'arr) \<times> 'w"
  np_add :: "'arr \<Rightarrow> 'arr \<Rightarrow> 'w \<Rightarrow> (exn + 'arr) \<times> 'w"
  np_clip :: "'arr \<Rightarrow> int \<Rightarrow> int \<Rightarrow> 'w \<Rightarrow> (exn + 'arr) \<times> 'w"
  gaussian_filter :: "'arr \<Rightarrow> int \<Rightarrow> 'w \<Rightarrow> (exn + 'arr) \<times> 'w"
  np_multiply :: "'arr \<Rightarrow> int \<Rightarrow> 'w \<Rightarrow> (exn + 'arr) \<times> 'w"
  astype_uint8 :: "'arr \<Rightarrow> 'w \<Rightarrow> (exn + 'arr) \<times> 'w"
  Image_fromarray :: "'arr \<Rightarrow> 'w \<Rightarrow> (exn + 'img) \<times> 'w"
  display :: "'img \<Rightarrow> 'w \<Rightarrow> (exn + unit) \<times> 'w"

definition lib_call :: "('w \<Rightarrow> (exn + 'a) \<times> 'w) \<Rightarrow> 'w pystate \<Rightarrow> (exn + 'a) \<times> 'w pystate" where
  "lib_call f st = (case f (world st) of (r, w') \<Rightarrow> (r, st\<lparr>world := w'\<rparr>))"

text \<open>\<^verbatim>\<open>SIGMAS = list(range(1, 10))\<close>\<close>

definition SIGMAS :: "int list" where
  "SIGMAS = map int [1..<10]"

text \<open>
  \<^verbatim>\<open>
  def normalize(image):
      return image / 255

  def add_noise(image, mean=0, std=0.1):
      noise = np.random.normal(mean, std, image.shape)
      return np.clip(image + noise, 0, 1)
  \<close>
  \<^verbatim>\<open>normalize\<close> is \<open>normalize_image\<close> here.
\<close>

definition normalize_image ::
  "('w, 'img, 'arr) library \<Rightarrow> 'arr \<Rightarrow> 'w pystate \<Rightarrow> (exn + 'arr) \<times> 'w pystate" where
  "normalize_image L img = lib_call (np_divide L img 255)"

definition add_noise ::
  "('w, 'img, 'arr) library \<Rightarrow> 'arr \<Rightarrow> pynum \<Rightarrow> pynum \<Rightarrow> 'w pystate \<Rightarrow>
   (exn + 'arr) \<times> 'w pystate" where
  "add_noise L img mean std =
     then_do (lib_call (np_shape L img)) (\<lambda>shape.
     then_do (lib_call (np_random_normal L mean std shape)) (\<lambda>noise.
     then_do (lib_call (np_add L img noise)) (\<lambda>noisy.
     lib_call (np_clip L noisy 0 1))))"

text \<open>
  The callables that \<^verbatim>\<open>transform_image\<close> puts into its pipeline: the two functions
  above (\<^verbatim>\<open>add_noise\<close> is called with its defaults) and the closures made by
  \<^verbatim>\<open>lambda image: gaussian_filter(image, sigma+1)\<close>, each represented by the address of
  the cell of \<^verbatim>\<open>sigma\<close>, which is read when the closure is called.
\<close>

datatype operation = Normalize | AddNoise | Blur addr

fun apply_operation ::
  "('w, 'img, 'arr) library \<Rightarrow> operation \<Rightarrow> 'arr \<Rightarrow> 'w pystate \<Rightarrow> (exn + 'arr) \<times> 'w pystate" where
  "apply_operation L Normalize img st = normalize_image L img st"
| "apply_operation L AddNoise img st = add_noise L img (PyInt 0) (PyFloat ''0.1'') st"
| "apply_operation L (Blur c) img st =
     (case heap st c of
        Some (Cell (Some sigma)) \<Rightarrow> lib_call (gaussian_filter L img (sigma + 1)) st
      | _ \<Rightarrow> (Inl NameError, st))"

text \<open>
  \<^verbatim>\<open>[(lambda image: gaussian_filter(image, sigma+1)) for sigma in SIGMAS]\<close>: the
  comprehension has a scope of its own, with one cell for \<^verbatim>\<open>sigma\<close>; each iteration
  stores the next element into the cell and makes a closure over it.
\<close>

fun blur_comprehension :: "addr \<Rightarrow> int list \<Rightarrow> 'w pystate \<Rightarrow> operation list \<times> 'w pystate" where
  "blur_comprehension c [] st = ([], st)"
| "blur_comprehension c (sigma # rest) st =
     (case blur_comprehension c rest (set_cell c sigma st) of
        (fs, st') \<Rightarrow> (Blur c # fs, st'))"

definition blur_operations :: "'w pystate \<Rightarrow> operation list \<times> 'w pystate" where
  "blur_operations st =
     (case alloc (Cell None) st of (c, st1) \<Rightarrow> blur_comprehension c SIGMAS st1)"

text \<open>
  \<^verbatim>\<open>
  def transform_image(image_path):
      image = Image.open(image_path).convert("L")
      image_np = np.array(image)
      blur_operations = [(lambda image: gaussian_filter(image, sigma+1)) for sigma in SIGMAS]
      operations = [normalize, add_noise] + blur_operations
      pipeline = create_pipeline(*operations)
      processed_image_np = pipeline(image_np)
      processed_image_np = np.clip(processed_image_np * 255, 0, 255).astype(np.uint8)
      processed_image = Image.fromarray(processed_image_np)
      display(processed_image)
  \<close>
  There is no \<^verbatim>\<open>try\<close> statement: every step is sequenced with \<open>then_do\<close>.
\<close>

definition transform_image ::
  "('w, 'img, 'arr) library \<Rightarrow> string \<Rightarrow> 'w pystate \<Rightarrow> (exn + unit) \<times> 'w pystate" where
  "transform_image L image_path =
     then_do (lib_call (Image_open L image_path)) (\<lambda>opened.
     then_do (lib_call (Image_convert L opened ''L'')) (\<lambda>img.
     then_do (lib_call (np_array L img)) (\<lambda>image_np.
     then_do (\<lambda>st. case blur_operations st of (fs, st') \<Rightarrow> (Inr fs, st')) (\<lambda>blur_ops.
     then_do (create_pipeline (map (apply_operation L) ([Normalize, AddNoise] @ blur_ops)) image_np)
       (\<lambda>processed_image_np.
     then_do (lib_call (np_multiply L processed_image_np 255)) (\<lambda>scaled.
     then_do (lib_call (np_clip L scaled 0 255)) (\<lambda>clipped.
     then_do (lib_call (astype_uint8 L clipped)) (\<lambda>processed_u8.
     then_do (lib_call (Image_fromarray L processed_u8)) (\<lambda>processed_image.
     lib_call (display L processed_image))))))))))"

text \<open>
  A library for concrete runs. Arrays and images are symbolic terms that record the
  calls that made them; the world is the list of names of library calls made so far and
  the only file is \<^verbatim>\<open>./image.png\<close>.
\<close>

datatype sym =
    File string
  | Converted sym string
  | Array sym
  | Divided sym int
  | Noise pynum pynum "nat list"
  | Added sym sym
  | Clipped sym int int
  | Gaussian sym int
  | Multiplied sym int
  | AsUint8 sym
  | FromArray sym

definition logged :: "string \<Rightarrow> 'a \<Rightarrow> string list \<Rightarrow> (exn + 'a) \<times> string list" where
  "logged name v w = (Inr v, w @ [name])"

definition recording_library :: "(string list, sym, sym) library" where
  "recording_library =
     \<lparr>Image_open = (\<lambda>path w.
        if path = ''./image.png'' then logged ''Image.open'' (File path) w
        else (Inl (Raised ''FileNotFoundError''), w @ [''Image.open''])),
      Image_convert = (\<lambda>im mode. logged ''convert'' (Converted im mode)),
      np_array = (\<lambda>im. logged ''np.array'' (Array im)),
      np_divide = (\<lambda>a k. logged ''/'' (Divided a k)),
      np_shape = (\<lambda>a. logged ''shape'' [2, 2]),
      np_random_normal = (\<lambda>mean std shape. logged ''np.random.normal'' (Noise mean std shape)),
      np_add = (\<lambda>a b. logged ''+'' (Added a b)),
      np_clip = (\<lambda>a lo hi. logged ''np.clip'' (Clipped a lo hi)),
      gaussian_filter = (\<lambda>a sigma. logged ''gaussian_filter'' (Gaussian a sigma)),
      np_multiply = (\<lambda>a k. logged ''*'' (Multiplied a k)),
      astype_uint8 = (\<lambda>a. logged ''astype'' (AsUint8 a)),
      Image_fromarray = (\<lambda>a. logged ''Image.fromarray'' (FromArray a)),
      display = (\<lambda>im. logged ''display'' ())\<rparr>"

section \<open>Properties of \<^verbatim>\<open>times_table\<close>\<close>

lemma times_table_loop_heap:
  assumes "heap st t = Some (ListObj xs)" and "c \<noteq> t"
  shows "times_table_loop c (Ref t) ks st =
          (Inr (),
           st\<lparr>heap := (heap st)
              (c := (if ks = [] then heap st c else Some (Cell (Some (last ks)))),
               t \<mapsto> ListObj (xs @ replicate (length ks) (Multiplier c)))\<rparr>)"
  using assms
proof (induction ks arbitrary: st xs)
  case Nil
  then have "(heap st)(c := heap st c, t \<mapsto> ListObj xs) = heap st"
    by (simp add: fun_upd_idem)
  then show ?case by simp
next
  case (Cons k ks)
  let ?st' = "(set_cell c k st)\<lparr>heap := (heap (set_cell c k st))(t \<mapsto> ListObj (xs @ [Multiplier c]))\<rparr>"
  have app: "list_append (Ref t) (Multiplier c) (set_cell c k st) = (Inr (), ?st')"
    using Cons.prems by (simp add: list_append_def set_cell_def)
  have h: "heap ?st' t = Some (ListObj (xs @ [Multiplier c]))" by simp
  have step: "times_table_loop c (Ref t) (k # ks) st = times_table_loop c (Ref t) ks ?st'"
    by (simp add: app)
  show ?case
    unfolding step Cons.IH [OF h Cons.prems(2)]
    using Cons.prems(2)
    by (auto simp: set_cell_def replicate_app_Cons_same fun_eq_iff
          intro!: arg_cong [where f = "\<lambda>h. st\<lparr>heap := h\<rparr>"])
qed

lemma times_table_result:
  "times_table st =
     (Inr (Ref (Suc (next_addr st))),
      st\<lparr>heap := (heap st)
           (next_addr st \<mapsto> Cell (Some 9),
            Suc (next_addr st) \<mapsto> ListObj (replicate 10 (Multiplier (next_addr st)))),
         next_addr := Suc (Suc (next_addr st))\<rparr>)"
proof -
  let ?n = "next_addr st"
  let ?st2 = "st\<lparr>heap := (heap st)(?n \<mapsto> Cell None, Suc ?n \<mapsto> ListObj []),
                 next_addr := Suc (Suc ?n)\<rparr>"
  have h: "heap ?st2 (Suc ?n) = Some (ListObj [])" by simp
  have ne: "?n \<noteq> Suc ?n" by simp
  have r: "py_range 10 \<noteq> []" "last (py_range 10) = 9" "length (py_range 10) = 10"
    by (simp_all add: py_range_def last_map)
  show ?thesis
    unfolding times_table_def alloc_def Let_def
    by (simp add: times_table_loop_heap [OF h ne] r fun_upd_twist)
qed

lemma py_call_Multiplier:
  "heap s c = Some (Cell (Some i)) \<Longrightarrow> py_call mul (Multiplier c) x s = Inr (mul i x)"
  by (simp add: py_call_def)



text \<open>
  C6. \<^verbatim>\<open>times_table\<close> returns a list of exactly 10 functions, and each of them, called
  with \<open>x\<close> in the state \<^verbatim>\<open>times_table\<close> left, returns \<open>9 * x\<close> (not \<open>i * x\<close> for
  the function at index \<open>i\<close>, as the docstring's example suggests).
\<close>

theorem times_table_all_nine:
  "\<exists>t fs st'. times_table st = (Inr (Ref t), st') \<and> list_of st' (Ref t) = Some fs \<and>
     length fs = 10 \<and>
     map (\<lambda>f. py_call mul f x st') fs = replicate 10 (Inr (mul 9 x))"
proof -
  let ?n = "next_addr st"
  let ?st' = "snd (times_table st)"
  have 1: "times_table st = (Inr (Ref (Suc ?n)), ?st')"
    by (simp add: times_table_result)
  have 2: "list_of ?st' (Ref (Suc ?n)) = Some (replicate 10 (Multiplier ?n))"
    by (simp add: times_table_result list_of_def)
  have "heap ?st' ?n = Some (Cell (Some 9))"
    by (simp add: times_table_result)
  then have 3: "map (\<lambda>f. py_call mul f x ?st') (replicate 10 (Multiplier ?n)) =
      replicate 10 (Inr (mul 9 x))"
    by (simp add: py_call_Multiplier)
  from 1 2 3 show ?thesis
    by (intro exI [of _ "Suc ?n"] exI [of _ "replicate 10 (Multiplier ?n)"] exI [of _ ?st']) simp
qed

text \<open>The notebook's cell \<^verbatim>\<open>[f(5) for f in times_table()]\<close> evaluates to ten times 45.\<close>

lemma call_each_same:
  "heap s c = Some (Cell (Some i)) \<Longrightarrow>
   call_each mul (replicate n (Multiplier c)) x s = Inr (replicate n (mul i x))"
  by (induction n) (simp_all add: py_call_Multiplier)

lemma times_table_cell_result:
  "fst (times_table_cell mul x st) = Inr (replicate 10 (mul 9 x))"
  by (simp add: times_table_cell_def times_table_result list_of_def call_each_same)

lemma times_table_cell_five:
  "fst (times_table_cell (*) (5::int) st) = Inr [45, 45, 45, 45, 45, 45, 45, 45, 45, 45]"
  by (simp add: times_table_cell_result eval_nat_numeral)

section \<open>Properties of \<^verbatim>\<open>add_item\<close>\<close>

lemma list_append_list:
  "heap st r = Some (ListObj ys) \<Longrightarrow>
   list_append (Ref r) v st = (Inr (), st\<lparr>heap := (heap st)(r \<mapsto> ListObj (ys @ [v]))\<rparr>)"
  by (simp add: list_append_def)

lemma add_item_default:
  "heap st d = Some (ListObj ys) \<Longrightarrow>
   add_item d x None st = (Inr (Ref d), st\<lparr>heap := (heap st)(d \<mapsto> ListObj (ys @ [x]))\<rparr>)"
  by (simp add: add_item_def list_append_list)

lemma add_item_explicit:
  "heap st r = Some (ListObj ys) \<Longrightarrow>
   add_item d x (Some (Ref r)) st =
     (Inr (Ref r), st\<lparr>heap := (heap st)(r \<mapsto> ListObj (ys @ [x]))\<rparr>)"
  by (simp add: add_item_def list_append_list)

lemma upt_from_one_Suc: "[Suc 0..<Suc (Suc n)] = Suc 0 # map Suc [Suc 0..<Suc n]"
  by (simp add: upt_conv_Cons map_Suc_upt del: upt_Suc)

lemma add_item_seq_default:
  "heap st d = Some (ListObj ys) \<Longrightarrow>
   add_item_seq d xs st =
     (map (\<lambda>n. Inr (Ref d, Some (ys @ take n xs))) [1..<Suc (length xs)],
      if xs = [] then st else st\<lparr>heap := (heap st)(d \<mapsto> ListObj (ys @ xs))\<rparr>)"
proof (induction xs arbitrary: st ys)
  case Nil
  then show ?case by simp
next
  case (Cons x xs)
  let ?st' = "st\<lparr>heap := (heap st)(d \<mapsto> ListObj (ys @ [x]))\<rparr>"
  have h: "heap ?st' d = Some (ListObj (ys @ [x]))" by simp
  have m: "map (\<lambda>n. Inr (Ref d, Some (ys @ take n (x # xs)))) [1..<Suc (length (x # xs))] =
     Inr (Ref d, Some (ys @ [x])) #
     map (\<lambda>n. Inr (Ref d, Some ((ys @ [x]) @ take n xs))) [1..<Suc (length xs)]"
    by (simp add: upt_from_one_Suc comp_def del: upt_Suc)
  show ?case
    unfolding m
    by (simp add: add_item_default [OF Cons.prems] Cons.IH [OF h] list_of_def del: upt_Suc)
qed

lemma def_add_item_result:
  "def_add_item st =
     (next_addr st,
      st\<lparr>heap := (heap st)(next_addr st \<mapsto> ListObj []), next_addr := Suc (next_addr st)\<rparr>)"
  by (simp add: def_add_item_def alloc_def)

text \<open>
  C2. The default of \<^verbatim>\<open>items\<close> is one list, created when \<^verbatim>\<open>add_item\<close> is defined. In
  every sequence of calls \<^verbatim>\<open>add_item(x1)\<close>, ..., \<^verbatim>\<open>add_item(xn)\<close> after the definition
  that omit \<^verbatim>\<open>items\<close>, the \<open>n\<close>-th call returns that list and its contents are then
  \<open>[x1, ..., xn]\<close>.
\<close>

theorem add_item_accumulates:
  "fst (add_item_seq (fst (def_add_item st)) xs (snd (def_add_item st))) =
     map (\<lambda>n. Inr (Ref (fst (def_add_item st)), Some (take n xs))) [1..<Suc (length xs)]"
proof -
  have "heap (snd (def_add_item st)) (fst (def_add_item st)) = Some (ListObj [])"
    by (simp add: def_add_item_result)
  from add_item_seq_default [OF this, of xs] show ?thesis
    by simp
qed

text \<open>
  C5. A call of \<^verbatim>\<open>add_item\<close> that omits \<^verbatim>\<open>items\<close> returns the default container
  itself, the same object every time. So the value \<open>r\<close> an earlier such call returned
  reads, after later such calls with the items \<open>xs\<close>, everything appended since: the
  contents \<open>ys\<close> the container had, the item \<open>x\<close> of the earlier call, and \<open>xs\<close>.
\<close>

theorem add_item_shared_default:
  assumes "heap st d = Some (ListObj ys)"
    and "add_item d x None st = (r, st1)"
    and "add_item_seq d xs st1 = (rs, st2)"
  shows "r = Inr (Ref d) \<and>
         map (map_sum id fst) rs = replicate (length xs) (Inr (Ref d)) \<and>
         list_of st2 (Ref d) = Some (ys @ x # xs)"
proof -
  from assms(1,2) have r: "r = Inr (Ref d)"
    and st1: "st1 = st\<lparr>heap := (heap st)(d \<mapsto> ListObj (ys @ [x]))\<rparr>"
    by (simp_all add: add_item_default)
  from st1 have h: "heap st1 d = Some (ListObj (ys @ [x]))" by simp
  from assms(3) have rs: "rs = map (\<lambda>n. Inr (Ref d, Some ((ys @ [x]) @ take n xs))) [1..<Suc (length xs)]"
    and st2: "st2 = (if xs = [] then st1 else st1\<lparr>heap := (heap st1)(d \<mapsto> ListObj ((ys @ [x]) @ xs))\<rparr>)"
    by (simp_all add: add_item_seq_default [OF h])
  have "map (map_sum id fst) rs = map (\<lambda>n. Inr (Ref d)) [1..<Suc (length xs)]"
    unfolding rs by (simp add: comp_def del: upt_Suc)
  also have "\<dots> = replicate (length [1..<Suc (length xs)]) (Inr (Ref d))"
    by (rule map_replicate_const)
  finally have m: "map (map_sum id fst) rs = replicate (length xs) (Inr (Ref d))"
    by (simp del: upt_Suc)
  from st2 h have "list_of st2 (Ref d) = Some (ys @ x # xs)"
    by (simp add: list_of_def)
  with r m show ?thesis by simp
qed

theorem add_item_shared_default_witness:
  "heap after_def 0 = Some (ListObj []) \<and>
   add_item 0 (IntV 1) None after_def = (Inr (Ref 0), after_first_call) \<and>
   add_item_seq 0 [IntV 2, IntV 3, IntV 4] after_first_call =
     (fst (add_item_seq 0 [IntV 2, IntV 3, IntV 4] after_first_call),
      snd (add_item_seq 0 [IntV 2, IntV 3, IntV 4] after_first_call)) \<and>
   map (map_sum id fst) (fst (add_item_seq 0 [IntV 2, IntV 3, IntV 4] after_first_call)) =
     replicate 3 (Inr (Ref 0)) \<and>
   list_of (snd (add_item_seq 0 [IntV 2, IntV 3, IntV 4] after_first_call)) (Ref 0) =
     Some [IntV 1, IntV 2, IntV 3, IntV 4]"
proof -
  have h1: "heap after_def 0 = Some (ListObj [])"
    by (simp add: after_def_def def_add_item_result init_state_def)
  have h2: "add_item 0 (IntV 1) None after_def = (Inr (Ref 0), after_first_call)"
    by (simp add: after_first_call_def add_item_default [OF h1])
  have h3: "add_item_seq 0 [IntV 2, IntV 3, IntV 4] after_first_call =
     (fst (add_item_seq 0 [IntV 2, IntV 3, IntV 4] after_first_call),
      snd (add_item_seq 0 [IntV 2, IntV 3, IntV 4] after_first_call))"
    by simp
  show ?thesis
    using h1 h2 add_item_shared_default [OF h1 h2 h3]
    by (simp add: eval_nat_numeral del: add_item_seq.simps)
qed

text \<open>
  The notebook's cell, run in a fresh session: \<^verbatim>\<open>v\<close> and \<^verbatim>\<open>a\<close> are both the default
  container, and \<^verbatim>\<open>print(v)\<close> writes \<open>[1, 2, 3, 4]\<close>, as the print before it does.
\<close>

lemma add_item_cell_prints:
  "fst (add_item_cell 0 after_def) = Inr (Ref 0, Ref 0) \<and>
   stdout (snd (add_item_cell 0 after_def)) =
     [PList [IntV 1, IntV 2], PList [IntV 1, IntV 2, IntV 3],
      PList [IntV 1, IntV 2, IntV 3, IntV 4], PList [IntV 1, IntV 2, IntV 3, IntV 4]] \<and>
   list_of (snd (add_item_cell 0 after_def)) (Ref 0) =
     Some [IntV 1, IntV 2, IntV 3, IntV 4, IntV 5]"
  by (simp add: add_item_cell_def print_add_item_def py_print_def add_item_def list_append_def
      list_of_def after_def_def def_add_item_result init_state_def)

text \<open>
  C7, as the specification states it, fails when the list passed for \<^verbatim>\<open>items\<close> is the
  default container itself, which every call without \<^verbatim>\<open>items\<close> hands out. In a fresh
  session, after \<^verbatim>\<open>v = add_item(1)\<close> the call \<^verbatim>\<open>add_item(5, v)\<close> passes a list
  explicitly and changes the default container from \<open>[1]\<close> to \<open>[1, 5]\<close>.
\<close>

theorem add_item_explicit_default_counterexample:
  "fst (def_add_item (init_state ())) = 0 \<and>
   fst (add_item 0 (IntV 1) None after_def) = Inr (Ref 0) \<and>
   list_of after_first_call (Ref 0) = Some [IntV 1] \<and>
   fst (add_item 0 (IntV 5) (Some (Ref 0)) after_first_call) = Inr (Ref 0) \<and>
   list_of (snd (add_item 0 (IntV 5) (Some (Ref 0)) after_first_call)) (Ref 0) =
     Some [IntV 1, IntV 5] \<and>
   heap (snd (add_item 0 (IntV 5) (Some (Ref 0)) after_first_call)) 0 \<noteq> heap after_first_call 0"
  by (simp add: after_first_call_def after_def_def def_add_item_result init_state_def
      add_item_def list_append_def list_of_def)

text \<open>
  C7, amended. For every list \<open>ys\<close> at an address \<open>r\<close> passed as \<^verbatim>\<open>items\<close> and every
  item \<open>x\<close>, \<^verbatim>\<open>add_item(x, ys)\<close> appends \<open>x\<close> to that list and returns it, and every
  other object is left as it was; so the default container is unchanged unless the list
  passed is the default container itself.
\<close>

theorem add_item_explicit_list:
  assumes "heap st r = Some (ListObj ys)"
    and "add_item d x (Some (Ref r)) st = (res, st')"
  shows "res = Inr (Ref r) \<and> list_of st' (Ref r) = Some (ys @ [x]) \<and>
         (\<forall>a. a \<noteq> r \<longrightarrow> heap st' a = heap st a) \<and>
         (r \<noteq> d \<longrightarrow> heap st' d = heap st d)"
  using assms by (auto simp: add_item_explicit list_of_def)

theorem add_item_explicit_list_witness:
  "heap (snd (new_list [IntV 7] after_first_call)) 1 = Some (ListObj [IntV 7]) \<and>
   add_item 0 (IntV 5) (Some (Ref 1)) (snd (new_list [IntV 7] after_first_call)) =
     (Inr (Ref 1), snd (add_item 0 (IntV 5) (Some (Ref 1)) (snd (new_list [IntV 7] after_first_call)))) \<and>
   list_of (snd (add_item 0 (IntV 5) (Some (Ref 1)) (snd (new_list [IntV 7] after_first_call))))
     (Ref 1) = Some [IntV 7, IntV 5] \<and>
   (1::nat) \<noteq> 0 \<and>
   heap (snd (add_item 0 (IntV 5) (Some (Ref 1)) (snd (new_list [IntV 7] after_first_call)))) 0 =
     Some (ListObj [IntV 1])"
proof -
  let ?st = "snd (new_list [IntV 7] after_first_call)"
  have h1: "heap ?st 1 = Some (ListObj [IntV 7])"
    by (simp add: new_list_def alloc_def after_first_call_def after_def_def def_add_item_result
        init_state_def add_item_def list_append_def)
  have h0: "heap ?st 0 = Some (ListObj [IntV 1])"
    by (simp add: new_list_def alloc_def after_first_call_def after_def_def def_add_item_result
        init_state_def add_item_def list_append_def)
  have h2: "add_item 0 (IntV 5) (Some (Ref 1)) ?st =
     (Inr (Ref 1), snd (add_item 0 (IntV 5) (Some (Ref 1)) ?st))"
    by (simp only: add_item_explicit [OF h1] snd_conv)
  show ?thesis
    using h1 h0 h2 add_item_explicit_list [OF h1 h2]
    by simp
qed

section \<open>What \<^verbatim>\<open>something\<close> prints\<close>

text \<open>
  The two equality tests print \<^verbatim>\<open>True\<close>; the two identity tests print what the
  interpreter's allocation of integer objects makes them. Nothing else changes.
\<close>

lemma something_prints:
  "something same_object st =
     st\<lparr>stdout := stdout st @
        [PVal (BoolV True), PVal (BoolV (same_object 10)),
         PVal (BoolV True), PVal (BoolV (same_object 123456))]\<rparr>"
  by (simp add: something_def py_print_def list_of_def)

text \<open>
  The function prints \<^verbatim>\<open>True\<close>, \<^verbatim>\<open>True\<close>, \<^verbatim>\<open>True\<close>, \<^verbatim>\<open>False\<close> exactly on an interpreter
  for which the two occurrences of 10 are one object and those of 123456 are not. An
  interpreter that shared integers through the small-integer cache only would be one.
\<close>

lemma something_true_true_true_false_iff:
  "stdout (something same_object st) =
     stdout st @ [PVal (BoolV True), PVal (BoolV True), PVal (BoolV True), PVal (BoolV False)]
   \<longleftrightarrow> same_object 10 \<and> \<not> same_object 123456"
  by (auto simp: something_prints)

lemma something_cache_only_prints:
  "stdout (something cache_only_same_object st) =
     stdout st @ [PVal (BoolV True), PVal (BoolV True), PVal (BoolV True), PVal (BoolV False)]"
  by (simp add: something_prints cache_only_same_object_def)

text \<open>
  C3. The specification says that in \<^verbatim>\<open>something\<close> identity coincides with equality
  for the small integer but not for the other one: \<^verbatim>\<open>a == 10\<close>, \<^verbatim>\<open>a is 10\<close> and
  \<^verbatim>\<open>c == 123456\<close> are \<^verbatim>\<open>True\<close> and \<^verbatim>\<open>c is 123456\<close> is \<^verbatim>\<open>False\<close>. That is what the
  notebook sets out to show under its heading on integer caching. On the notebook's
  interpreter the function does not show it: both occurrences of 123456 are constants of
  the one function body, hence one object, and the function prints \<^verbatim>\<open>True\<close> four times.
  The first three lines are as the specification says; the fourth is not.
\<close>

theorem something_cpython_prints:
  "stdout (something cpython_same_object st) =
     stdout st @ [PVal (BoolV True), PVal (BoolV True), PVal (BoolV True), PVal (BoolV True)] \<and>
   stdout (something cpython_same_object st) \<noteq>
     stdout st @ [PVal (BoolV True), PVal (BoolV True), PVal (BoolV True), PVal (BoolV False)]"
  by (simp add: something_prints cpython_same_object_def)

section \<open>The demonstrations share no state\<close>

lemma sans_lists_fields [simp]:
  "next_addr (sans_lists s) = next_addr s"
  "stdout (sans_lists s) = stdout s"
  "world (sans_lists s) = world s"
  "heap (sans_lists s) a = erase (heap s a)"
  by (simp_all add: sans_lists_def)

lemma sans_lists_eqI:
  "next_addr s = next_addr t \<Longrightarrow> stdout s = stdout t \<Longrightarrow> world s = world t \<Longrightarrow>
   (\<And>a. erase (heap s a) = erase (heap t a)) \<Longrightarrow> sans_lists s = sans_lists t"
  by (cases s, cases t) (simp add: sans_lists_def fun_eq_iff)

lemma sans_lists_eqD:
  assumes "sans_lists s = sans_lists t"
  shows "next_addr s = next_addr t" "stdout s = stdout t" "world s = world t"
    "erase (heap s a) = erase (heap t a)"
proof -
  from assms have "next_addr (sans_lists s) = next_addr (sans_lists t)"
    "stdout (sans_lists s) = stdout (sans_lists t)"
    "world (sans_lists s) = world (sans_lists t)"
    "heap (sans_lists s) a = heap (sans_lists t) a"
    by simp_all
  then show "next_addr s = next_addr t" "stdout s = stdout t" "world s = world t"
    "erase (heap s a) = erase (heap t a)"
    by simp_all
qed

lemma py_call_sans_lists:
  "erase (heap s1 c) = erase (heap s2 c) \<Longrightarrow>
   py_call mul (Multiplier c) x s1 = py_call mul (Multiplier c) x s2"
  by (auto simp: py_call_def erase_def split: option.splits obj.splits)

lemma py_call_same:
  assumes "sans_lists s1 = sans_lists s2"
  shows "py_call mul f x s1 = py_call mul f x s2"
proof (cases f)
  case (Multiplier c)
  with py_call_sans_lists [OF sans_lists_eqD(4) [OF assms]] show ?thesis by simp
qed (simp_all add: py_call_def)

lemma add_item_sans_lists:
  "sans_lists (snd (add_item d x arg s)) = sans_lists s"
  by (rule sans_lists_eqI)
     (auto simp: add_item_def list_append_def erase_def split: option.splits pyval.splits obj.splits)

lemma exec_same:
  assumes "sans_lists s1 = sans_lists s2" and "\<not> is_add_item c"
  shows "fst (exec so mul d c s1) = fst (exec so mul d c s2) \<and>
         sans_lists (snd (exec so mul d c s1)) = sans_lists (snd (exec so mul d c s2))"
proof (cases c)
  case TimesTable
  have "sans_lists (snd (times_table s1)) = sans_lists (snd (times_table s2))"
    using sans_lists_eqD [OF assms(1)]
    by (intro sans_lists_eqI) (simp_all add: times_table_result)
  with TimesTable sans_lists_eqD(1) [OF assms(1)] show ?thesis
    by (simp add: times_table_result)
next
  case (Call f x)
  with assms(1) py_call_same [OF assms(1), of mul f x] show ?thesis
    by (auto split: sum.splits)
next
  case (AddItem x arg)
  with assms(2) show ?thesis by simp
next
  case Something
  have "sans_lists (something so s1) = sans_lists (something so s2)"
    using sans_lists_eqD [OF assms(1)]
    by (intro sans_lists_eqI) (simp_all add: something_def py_print_def list_of_def)
  with Something show ?thesis by simp
next
  case (NewList vs)
  have "sans_lists (snd (new_list vs s1)) = sans_lists (snd (new_list vs s2))"
    using sans_lists_eqD [OF assms(1)]
    by (intro sans_lists_eqI) (simp_all add: new_list_def alloc_def)
  with NewList sans_lists_eqD(1) [OF assms(1)] show ?thesis
    by (simp add: new_list_def alloc_def)
qed

lemma run_Cons:
  "run so mul d (c # cs) st =
     (fst (exec so mul d c st) # fst (run so mul d cs (snd (exec so mul d c st))),
      snd (run so mul d cs (snd (exec so mul d c st))))"
  by (simp split: prod.splits)

lemma run_without_add_item:
  "sans_lists s1 = sans_lists s2 \<Longrightarrow>
   outcomes_of (\<lambda>c. \<not> is_add_item c) cs (fst (run so mul d cs s1)) =
     fst (run so mul d (filter (\<lambda>c. \<not> is_add_item c) cs) s2) \<and>
   sans_lists (snd (run so mul d cs s1)) =
     sans_lists (snd (run so mul d (filter (\<lambda>c. \<not> is_add_item c) cs) s2))"
proof (induction cs arbitrary: s1 s2)
  case Nil
  then show ?case by (simp add: outcomes_of_def)
next
  case (Cons c cs)
  show ?case
  proof (cases "is_add_item c")
    case True
    then obtain x arg where c: "c = AddItem x arg" by (cases c) simp_all
    have "snd (exec so mul d c s1) = snd (add_item d x arg s1)"
      using c by (simp split: prod.splits sum.splits)
    then have "sans_lists (snd (exec so mul d c s1)) = sans_lists s2"
      using Cons.prems by (simp add: add_item_sans_lists)
    from Cons.IH [OF this] True show ?thesis
      by (simp add: outcomes_of_def run_Cons del: run.simps)
  next
    case False
    from exec_same [OF Cons.prems False, of so mul d]
    have o: "fst (exec so mul d c s1) = fst (exec so mul d c s2)"
      and s: "sans_lists (snd (exec so mul d c s1)) = sans_lists (snd (exec so mul d c s2))"
      by simp_all
    from Cons.IH [OF s] False o show ?thesis
      by (simp add: outcomes_of_def run_Cons del: run.simps)
  qed
qed

lemma exec_next_addr: "next_addr st \<le> next_addr (snd (exec so mul d c st))"
  by (cases c)
    (auto simp: times_table_result add_item_def list_append_def something_def py_print_def
      new_list_def alloc_def Let_def
      split: sum.splits option.splits pyval.splits obj.splits)

lemma exec_other_demo_keeps:
  assumes "is_other_demo c" and "d < next_addr st"
  shows "heap (snd (exec so mul d c st)) d = heap st d"
  using assms
  by (cases c)
    (auto simp: times_table_result something_def py_print_def Let_def split: sum.splits)

lemma exec_add_item_default:
  assumes "\<not> is_other_demo c" and "heap s1 d = heap s2 d"
    and "d < next_addr s1" and "d < next_addr s2"
  shows "heap (snd (exec so mul d c s1)) d = heap (snd (exec so mul d c s2)) d"
  using assms
  by (cases c)
    (auto simp: add_item_def list_append_def new_list_def alloc_def
      split: option.splits pyval.splits obj.splits)

lemma run_without_other_demos:
  "heap s1 d = heap s2 d \<Longrightarrow> d < next_addr s1 \<Longrightarrow> d < next_addr s2 \<Longrightarrow>
   heap (snd (run so mul d cs s1)) d =
     heap (snd (run so mul d (filter (\<lambda>c. \<not> is_other_demo c) cs) s2)) d"
proof (induction cs arbitrary: s1 s2)
  case Nil
  then show ?case by simp
next
  case (Cons c cs)
  have n1: "d < next_addr (snd (exec so mul d c s1))"
    using Cons.prems(2) exec_next_addr [of s1 so mul d c] by simp
  show ?case
  proof (cases "is_other_demo c")
    case True
    have "heap (snd (exec so mul d c s1)) d = heap s2 d"
      using exec_other_demo_keeps [OF True Cons.prems(2)] Cons.prems(1) by simp
    from Cons.IH [OF this n1 Cons.prems(3)] True show ?thesis
      by (simp add: run_Cons del: run.simps)
  next
    case False
    have n2: "d < next_addr (snd (exec so mul d c s2))"
      using Cons.prems(3) exec_next_addr [of s2 so mul d c] by simp
    from Cons.IH [OF exec_add_item_default [OF False Cons.prems] n1 n2] False show ?thesis
      by (simp add: run_Cons del: run.simps)
  qed
qed

text \<open>
  C9. The three demonstrations share no runtime state. In every session, from a state
  in which \<^verbatim>\<open>add_item\<close> has been defined (its default container \<open>dflt\<close> is allocated):
  the outcomes of all calls other than those of \<^verbatim>\<open>add_item\<close> (the tables returned by
  \<^verbatim>\<open>times_table\<close>, the values returned by the closures, the completion of
  \<^verbatim>\<open>something\<close>) and the lines printed are what they are in the session without the
  calls of \<^verbatim>\<open>add_item\<close>, in either argument form; and the default container of
  \<^verbatim>\<open>add_item\<close> ends as it does in the session without the calls of \<^verbatim>\<open>times_table\<close>,
  of its closures and of \<^verbatim>\<open>something\<close>.
\<close>

theorem demonstrations_share_no_state:
  assumes "dflt < next_addr st"
  shows "outcomes_of (\<lambda>c. \<not> is_add_item c) cs (fst (run so mul dflt cs st)) =
           fst (run so mul dflt (filter (\<lambda>c. \<not> is_add_item c) cs) st) \<and>
         stdout (snd (run so mul dflt cs st)) =
           stdout (snd (run so mul dflt (filter (\<lambda>c. \<not> is_add_item c) cs) st)) \<and>
         heap (snd (run so mul dflt cs st)) dflt =
           heap (snd (run so mul dflt (filter (\<lambda>c. \<not> is_other_demo c) cs) st)) dflt"
proof -
  have r: "sans_lists st = sans_lists st" by simp
  note a = run_without_add_item [OF r, of cs so mul dflt]
  from a have "stdout (snd (run so mul dflt cs st)) =
      stdout (snd (run so mul dflt (filter (\<lambda>c. \<not> is_add_item c) cs) st))"
    by (blast dest: sans_lists_eqD(2))
  moreover have "heap (snd (run so mul dflt cs st)) dflt =
      heap (snd (run so mul dflt (filter (\<lambda>c. \<not> is_other_demo c) cs) st)) dflt"
    using assms by (intro run_without_other_demos) simp_all
  ultimately show ?thesis using a by blast
qed

theorem demonstrations_share_no_state_witness:
  "(0::nat) < next_addr after_def \<and>
   outcomes_of (\<lambda>c. \<not> is_add_item c) session
     (fst (run (\<lambda>n. True) (*) 0 session after_def)) =
     [Value (Ref 2), Product 45, Done] \<and>
   heap (snd (run (\<lambda>n. True) (*) 0 session after_def)) 0 =
     Some (ListObj [IntV 1, IntV 3])"
proof -
  have h: "(0::nat) < next_addr after_def"
    by (simp add: after_def_def def_add_item_result init_state_def)
  have e1: "fst (run (\<lambda>n. True) (*) 0 (filter (\<lambda>c. \<not> is_add_item c) session) after_def) =
      [Value (Ref 2), Product 45, Done]"
    by (simp add: session_def after_def_def def_add_item_result init_state_def
        times_table_result py_call_def)
  have e2: "heap (snd (run (\<lambda>n. True) (*) 0 (filter (\<lambda>c. \<not> is_other_demo c) session) after_def)) 0 =
      Some (ListObj [IntV 1, IntV 3])"
    by (simp add: session_def after_def_def def_add_item_result init_state_def
        add_item_def list_append_def)
  from demonstrations_share_no_state [OF h, of session "\<lambda>n. True" "(*)"] h e1 e2
  show ?thesis by simp
qed

section \<open>Properties of the image pipeline\<close>

lemma pipeline_snoc:
  "pipeline (fs @ [f]) x st =
     (case pipeline fs x st of (Inl e, st') \<Rightarrow> (Inl e, st') | (Inr y, st') \<Rightarrow> f y st')"
  by (induction fs arbitrary: x st) (auto split: prod.splits sum.splits)

lemma pipeline_nested: "pipeline fs x st = nested_from_last (rev fs) x st"
  by (induction fs arbitrary: x st rule: rev_induct) (simp_all add: pipeline_snoc)

lemma pipeline_pure:
  "pipeline (map pure_operation gs) x st = (Inr (fold (\<lambda>g y. g y) gs x), st)"
  by (induction gs arbitrary: x) (simp_all add: pure_operation_def)

text \<open>
  C8. For every sequence of operations and every input \<open>x\<close>, the function returned by
  \<^verbatim>\<open>create_pipeline\<close> applied to \<open>x\<close> is the left-to-right composition
  \<open>fn(...(f2(f1(x)))...)\<close>, for operations with effects and, as a special case, for pure
  functions; with no operation it returns \<open>x\<close> unchanged.
\<close>

theorem create_pipeline_composition:
  "create_pipeline fs x st = left_to_right_composition fs x st \<and>
   create_pipeline [] x st = (Inr x, st) \<and>
   create_pipeline (map pure_operation gs) x st = (Inr (nested_pure gs x), st) \<and>
   nested_pure [g1, g2, g3] x = g3 (g2 (g1 x))"
  by (simp add: create_pipeline_def left_to_right_composition_def pipeline_nested [symmetric]
      pipeline_pure nested_pure_def foldr_conv_fold)

lemma blur_comprehension_result:
  "blur_comprehension c sigmas st =
     (replicate (length sigmas) (Blur c),
      st\<lparr>heap := (heap st)
        (c := (if sigmas = [] then heap st c else Some (Cell (Some (last sigmas)))))\<rparr>)"
proof (induction sigmas arbitrary: st)
  case Nil
  then show ?case by simp
next
  case (Cons sigma rest)
  show ?case
    by (auto simp: Cons.IH set_cell_def fun_eq_iff
          intro!: arg_cong [where f = "\<lambda>h. st\<lparr>heap := h\<rparr>"])
qed

lemma blur_operations_result:
  "blur_operations st =
     (replicate 9 (Blur (next_addr st)),
      st\<lparr>heap := (heap st)(next_addr st \<mapsto> Cell (Some 9)),
         next_addr := Suc (next_addr st)\<rparr>)"
proof -
  have s: "SIGMAS \<noteq> []" "last SIGMAS = 9" "length SIGMAS = 9"
    by (simp_all add: SIGMAS_def last_map)
  show ?thesis
    by (simp add: blur_operations_def alloc_def blur_comprehension_result s)
qed

text \<open>
  C4. The nine closures that the comprehension in \<^verbatim>\<open>transform_image\<close> makes close over
  the variable \<^verbatim>\<open>sigma\<close>, not over its value at each iteration. For every image and
  whatever the outside world is when they are called, each of the nine applies
  \<^verbatim>\<open>gaussian_filter\<close> with the value 10, the last \<^verbatim>\<open>sigma\<close> plus 1, so all nine produce
  the same output, not the filters with the values 2 to 10.
\<close>

theorem blur_operations_same_sigma:
  "length (fst (blur_operations st)) = 9 \<and>
   map (\<lambda>f. apply_operation L f img ((snd (blur_operations st))\<lparr>world := w\<rparr>))
       (fst (blur_operations st)) =
     replicate 9 (lib_call (gaussian_filter L img 10) ((snd (blur_operations st))\<lparr>world := w\<rparr>))"
  by (simp add: blur_operations_result)

lemma lib_call_heap: "heap (snd (lib_call f st)) = heap st"
  by (simp add: lib_call_def split: prod.splits)

lemma then_do_heap:
  assumes "\<And>s. heap (snd (m s)) = heap s" and "\<And>a s. heap (snd (f a s)) = heap s"
  shows "heap (snd (then_do m f s)) = heap s"
proof (cases "m s")
  case (Pair r s')
  with assms(1) [of s] have h: "heap s' = heap s" by simp
  show ?thesis
  proof (cases r)
    case (Inl e)
    with Pair h show ?thesis by (simp add: then_do_def)
  next
    case (Inr a)
    with Pair h assms(2) [of a s'] show ?thesis by (simp add: then_do_def)
  qed
qed

lemma apply_operation_heap: "heap (snd (apply_operation L f img st)) = heap st"
proof (cases f)
  case Normalize
  then show ?thesis by (simp add: normalize_image_def lib_call_heap)
next
  case AddNoise
  then show ?thesis
    by (simp add: add_noise_def then_do_heap lib_call_heap)
next
  case (Blur c)
  then show ?thesis
    by (simp add: lib_call_heap split: option.splits obj.splits)
qed

lemma pipeline_blur_at_call:
  "heap st c = Some (Cell (Some k)) \<Longrightarrow>
   pipeline (replicate n (apply_operation L (Blur c))) img st =
   pipeline (replicate n (\<lambda>i. lib_call (gaussian_filter L i (k + 1)))) img st"
proof (induction n arbitrary: img st)
  case 0
  then show ?case by simp
next
  case (Suc n)
  have step: "apply_operation L (Blur c) img st = lib_call (gaussian_filter L img (k + 1)) st"
    using Suc.prems by simp
  obtain r st' where l: "lib_call (gaussian_filter L img (k + 1)) st = (r, st')"
    by force
  with lib_call_heap [of "gaussian_filter L img (k + 1)" st] Suc.prems
  have h': "heap st' c = Some (Cell (Some k))" by simp
  show ?case
    using step l Suc.IH [OF h'] by (cases r) (simp_all del: apply_operation.simps)
qed

text \<open>
  The same holds at the time the pipeline of \<^verbatim>\<open>transform_image\<close> calls the closures:
  the library calls in between do not touch the cell, so the pipeline is
  \<^verbatim>\<open>normalize\<close>, \<^verbatim>\<open>add_noise\<close> and then nine times the filter with the value 10.
\<close>

lemma transform_image_pipeline_sigma:
  "then_do (\<lambda>st. case blur_operations st of (fs, st') \<Rightarrow> (Inr fs, st'))
     (\<lambda>blur_ops. create_pipeline (map (apply_operation L) ([Normalize, AddNoise] @ blur_ops)) img) st =
   pipeline ([normalize_image L, \<lambda>i. add_noise L i (PyInt 0) (PyFloat ''0.1'')] @
             replicate 9 (\<lambda>i. lib_call (gaussian_filter L i 10)))
     img (snd (blur_operations st))"
proof -
  let ?st' = "snd (blur_operations st)"
  let ?c = "next_addr st"
  have h: "heap ?st' ?c = Some (Cell (Some 9))"
    by (simp add: blur_operations_result)
  have n: "\<And>r s. normalize_image L img ?st' = (r, s) \<Longrightarrow> heap s ?c = Some (Cell (Some 9))"
    using apply_operation_heap [of L Normalize img ?st'] h by simp
  have a: "\<And>i s0 r s. heap s0 ?c = Some (Cell (Some 9)) \<Longrightarrow>
      add_noise L i (PyInt 0) (PyFloat ''0.1'') s0 = (r, s) \<Longrightarrow> heap s ?c = Some (Cell (Some 9))"
    using apply_operation_heap [of L AddNoise] by (metis apply_operation.simps(2) snd_conv)
  have b: "\<And>i s. heap s ?c = Some (Cell (Some 9)) \<Longrightarrow>
      pipeline (replicate 9 (apply_operation L (Blur ?c))) i s =
      pipeline (replicate 9 (\<lambda>i. lib_call (gaussian_filter L i 10))) i s"
    using pipeline_blur_at_call [where c = ?c and k = 9 and n = 9 and L = L] by simp
  have "then_do (\<lambda>st. case blur_operations st of (fs, st') \<Rightarrow> (Inr fs, st'))
     (\<lambda>blur_ops. create_pipeline (map (apply_operation L) ([Normalize, AddNoise] @ blur_ops)) img) st =
     pipeline (map (apply_operation L) ([Normalize, AddNoise] @ replicate 9 (Blur ?c))) img ?st'"
    by (simp add: then_do_def create_pipeline_def blur_operations_result)
  also have "\<dots> = pipeline ([normalize_image L, \<lambda>i. add_noise L i (PyInt 0) (PyFloat ''0.1'')] @
             replicate 9 (\<lambda>i. lib_call (gaussian_filter L i 10))) img ?st'"
  proof -
    obtain r1 s1 where 1: "normalize_image L img ?st' = (r1, s1)" by force
    show ?thesis
    proof (cases r1)
      case (Inl e)
      with 1 show ?thesis by (simp del: replicate_Suc apply_operation.simps(3))
    next
      case (Inr y)
      obtain r2 s2 where 2: "add_noise L y (PyInt 0) (PyFloat ''0.1'') s1 = (r2, s2)" by force
      from n [OF 1] have h1: "heap s1 ?c = Some (Cell (Some 9))" .
      from a [OF h1 2] have h2: "heap s2 ?c = Some (Cell (Some 9))" .
      show ?thesis
      proof (cases r2)
        case (Inl e)
        with 1 2 Inr show ?thesis by (simp del: replicate_Suc apply_operation.simps(3))
      next
        case (Inr z)
        with 1 2 \<open>r1 = Inr y\<close> b [OF h2, of z] show ?thesis
          by (simp del: replicate_Suc apply_operation.simps(3))
      qed
    qed
  qed
  finally show ?thesis .
qed

text \<open>
  C10. \<^verbatim>\<open>transform_image\<close> handles no error. When opening the image file raises \<open>e\<close>,
  the call of \<^verbatim>\<open>transform_image\<close> raises \<open>e\<close>, and the state it leaves is the one the
  failed \<^verbatim>\<open>Image.open\<close> left: no later step has been applied.
\<close>

theorem transform_image_open_fails:
  assumes "Image_open L image_path (world st) = (Inl e, w')"
  shows "transform_image L image_path st = (Inl e, st\<lparr>world := w'\<rparr>)"
  using assms by (simp add: transform_image_def then_do_def lib_call_def)

theorem transform_image_open_fails_witness:
  "Image_open recording_library ''./missing.png'' (world (init_state [])) =
     (Inl (Raised ''FileNotFoundError''), [''Image.open'']) \<and>
   transform_image recording_library ''./missing.png'' (init_state []) =
     (Inl (Raised ''FileNotFoundError''), (init_state [])\<lparr>world := [''Image.open'']\<rparr>)"
proof -
  have h: "Image_open recording_library ''./missing.png'' (world (init_state [])) =
     (Inl (Raised ''FileNotFoundError''), [''Image.open''])"
    by (simp add: recording_library_def init_state_def)
  from h transform_image_open_fails [OF h] show ?thesis by simp
qed

end
